theory Spec2Isabelle
  imports Main "HOL-Library.Word"
begin

section \<open>Data model\<close>

text \<open>
  Pointers returned by Go's \<open>new(V)\<close> are addresses into an explicit store of
  objects; an address that holds nothing stands for a nil pointer.  A
  \<open>client.Client\<close> interface value is either nil (\<open>None\<close>) or a reference
  to a client, whose cluster state lives in the world under that reference.
\<close>

type_synonym addr = nat
type_synonym cid = nat

text \<open>\<open>types.NamespacedName\<close>.\<close>

record NamespacedName =
  Namespace :: string
  Name :: string

text \<open>
  A value of the type parameter \<open>V\<close>: the two identity fields reached through
  \<open>GetName/SetName\<close> and \<open>GetNamespace/SetNamespace\<close>, and every other field
  of \<open>V\<close> as \<open>body\<close>.  The zero value of \<open>V\<close> has empty strings and the zero
  body, \<open>default\<close>.
\<close>

record 'v object =
  meta_name :: string
  meta_namespace :: string
  body :: 'v

definition zero_value :: "'v::default object" where
  "zero_value = \<lparr>meta_name = [], meta_namespace = [], body = default\<rparr>"

text \<open>
  The two ways a call can panic: the \<open>panic("Komega's client is not set. Use SetClient
  to set it.")\<close> of \<open>checkClient\<close>, and the runtime's nil dereference.
\<close>

datatype panic = ClientNotSet | NilDereference

text \<open>
  The struct \<open>komega\<close>, as far as \<open>default.go\<close> uses it: its field \<open>client\<close>.
  No code assigns to the field of an existing struct (\<open>SetClient\<close> builds a new one),
  so the pointer \<open>defaultK\<close> is modelled by the struct it points to.
\<close>

record komega =
  client :: "cid option"

text \<open>
  Ghost history of the effects performed so far, in order: allocations, round trips to
  a client and calls of a mutator, each with the address of the instance concerned.
\<close>

datatype event =
    Alloc addr
  | Fetch cid NamespacedName addr
  | Listing cid addr
  | Mutate addr
  | Write cid addr
  | WriteStatus cid addr

record ('v, 's) world =
  defaultK :: komega
  objects :: "addr \<rightharpoonup> 'v object"
  object_lists :: "addr \<rightharpoonup> 'v object list"
  next_addr :: addr
  stores :: "cid \<Rightarrow> 's"
  events :: "event list"

text \<open>
  The store contract consumed (\<open>client.Client\<close>, an external collaborator): four
  blocking calls that rewrite their argument in place and return an error or nil.  Each is
  a function of the argument's current contents and the client's state; the two writes
  also return the client's new state.
\<close>

record ('v, 's, 'e, 'lo, 'uo) Client =
  cGet :: "NamespacedName \<Rightarrow> 'v object \<Rightarrow> 's \<Rightarrow> 'e option \<times> 'v object"
  cList :: "'lo list \<Rightarrow> 'v object list \<Rightarrow> 's \<Rightarrow> 'e option \<times> 'v object list"
  cUpdate :: "'v object \<Rightarrow> 'uo list \<Rightarrow> 's \<Rightarrow> 'e option \<times> 'v object \<times> 's"
  cStatusUpdate :: "'v object \<Rightarrow> 'uo list \<Rightarrow> 's \<Rightarrow> 'e option \<times> 'v object \<times> 's"

text \<open>A probe: a zero-argument Go closure, run in the world of its invocation.\<close>

type_synonym ('r, 'v, 's) probe = "('v, 's) world \<Rightarrow> panic + 'r \<times> ('v, 's) world"

definition and_then :: "panic + 'a \<Rightarrow> ('a \<Rightarrow> panic + 'b) \<Rightarrow> panic + 'b" where
  "and_then r k = (case r of Inl p \<Rightarrow> Inl p | Inr x \<Rightarrow> k x)"

section \<open>Allocation and the identity setters\<close>

text \<open>\<open>new(V)\<close> for a single resource and for a list container.\<close>

definition new_object :: "('v::default, 's) world \<Rightarrow> addr \<times> ('v, 's) world" where
  "new_object w =
     (next_addr w,
      w\<lparr>objects := (objects w)(next_addr w \<mapsto> zero_value),
        next_addr := Suc (next_addr w),
        events := events w @ [Alloc (next_addr w)]\<rparr>)"

definition new_list :: "('v, 's) world \<Rightarrow> addr \<times> ('v, 's) world" where
  "new_list w =
     (next_addr w,
      w\<lparr>object_lists := (object_lists w)(next_addr w \<mapsto> []),
        next_addr := Suc (next_addr w),
        events := events w @ [Alloc (next_addr w)]\<rparr>)"

text \<open>
  \<open>SetName\<close> and \<open>SetNamespace\<close> of \<open>client.Object\<close>: they write one identity field
  of the instance behind the pointer, and panic on a nil pointer.
\<close>

definition SetName :: "addr \<Rightarrow> string \<Rightarrow> ('v, 's) world \<Rightarrow> panic + ('v, 's) world" where
  "SetName obj n w =
     (case objects w obj of
        None \<Rightarrow> Inl NilDereference
      | Some cur \<Rightarrow> Inr (w\<lparr>objects := (objects w)(obj \<mapsto> cur\<lparr>meta_name := n\<rparr>)\<rparr>))"

definition SetNamespace :: "addr \<Rightarrow> string \<Rightarrow> ('v, 's) world \<Rightarrow> panic + ('v, 's) world" where
  "SetNamespace obj n w =
     (case objects w obj of
        None \<Rightarrow> Inl NilDereference
      | Some cur \<Rightarrow> Inr (w\<lparr>objects := (objects w)(obj \<mapsto> cur\<lparr>meta_namespace := n\<rparr>)\<rparr>))"

section \<open>The methods of \<open>komega\<close>\<close>

text \<open>
  Modelled from the spec: the method \<open>komega.Get\<close>, which \<open>default.go\<close> calls and
  whose body is in another file.  ``Returns a function that, on each call, fetches the
  resource identified by the object's own identity fields directly into the object
  (mutating it in place) and returns any error from the store''; the identity is
  ``immutable once captured inside a probe closure'', so the key is read when the probe
  is built.  The client is the receiver's.
\<close>

definition komega_Get ::
  "('v, 's, 'e, 'lo, 'uo) Client \<Rightarrow> komega \<Rightarrow> addr \<Rightarrow> ('v, 's) world
     \<Rightarrow> panic + ('e option, 'v, 's) probe" where
  "komega_Get cl k obj w =
     (case objects w obj of
        None \<Rightarrow> Inl NilDereference
      | Some ob \<Rightarrow>
          let key = \<lparr>Namespace = meta_namespace ob, Name = meta_name ob\<rparr> in
          Inr (\<lambda>w'.
            case client k of
              None \<Rightarrow> Inl NilDereference
            | Some c \<Rightarrow>
                (case objects w' obj of
                   None \<Rightarrow> Inl NilDereference
                 | Some cur \<Rightarrow>
                     let (err, fetched) = cGet cl key cur (stores w' c) in
                     Inr (err, w'\<lparr>objects := (objects w')(obj \<mapsto> fetched),
                                  events := events w' @ [Fetch c key obj]\<rparr>))))"

text \<open>
  Modelled from the spec: the method \<open>komega.List\<close>, ``same contract as fetchProbe but
  for collection queries; mutates the list object in place with matching items per the
  given filter options''.
\<close>

definition komega_List ::
  "('v, 's, 'e, 'lo, 'uo) Client \<Rightarrow> komega \<Rightarrow> addr \<Rightarrow> 'lo list
     \<Rightarrow> ('e option, 'v, 's) probe" where
  "komega_List cl k obj opts =
     (\<lambda>w'.
        case client k of
          None \<Rightarrow> Inl NilDereference
        | Some c \<Rightarrow>
            (case object_lists w' obj of
               None \<Rightarrow> Inl NilDereference
             | Some cur \<Rightarrow>
                 let (err, listed) = cList cl opts cur (stores w' c) in
                 Inr (err, w'\<lparr>object_lists := (object_lists w')(obj \<mapsto> listed),
                              events := events w' @ [Listing c obj]\<rparr>)))"

text \<open>
  Modelled from the spec: the methods \<open>komega.Update\<close> and \<open>komega.UpdateStatus\<close>,
  which take the instance, a closure \<open>updateFunc\<close> and the update options.  On each call
  the probe ``(a) fetches the current resource state for identity into the instance,
  (b) applies the mutator to that instance, (c) writes the instance back to the store via
  an update operation, (d) returns any error from either step'': the error of the fetch
  is returned as it is, and otherwise the outcome of the write.  \<open>UpdateStatus\<close> is
  ``identical except the write targets the resource's status sub-resource''.  The flag
  \<open>status\<close> selects the write.
\<close>

definition komega_write ::
  "bool \<Rightarrow> ('v, 's, 'e, 'lo, 'uo) Client \<Rightarrow> komega \<Rightarrow> addr
     \<Rightarrow> (('v, 's) world \<Rightarrow> panic + ('v, 's) world) \<Rightarrow> 'uo list \<Rightarrow> ('v, 's) world
     \<Rightarrow> panic + ('e option, 'v, 's) probe" where
  "komega_write status cl k obj updateFunc opts w =
     (case objects w obj of
        None \<Rightarrow> Inl NilDereference
      | Some ob \<Rightarrow>
          let key = \<lparr>Namespace = meta_namespace ob, Name = meta_name ob\<rparr> in
          Inr (\<lambda>w'.
            case client k of
              None \<Rightarrow> Inl NilDereference
            | Some c \<Rightarrow>
                (case objects w' obj of
                   None \<Rightarrow> Inl NilDereference
                 | Some cur \<Rightarrow>
                     let (err, fetched) = cGet cl key cur (stores w' c);
                         w1 = w'\<lparr>objects := (objects w')(obj \<mapsto> fetched),
                                 events := events w' @ [Fetch c key obj]\<rparr>
                     in
                     (case err of
                        Some e \<Rightarrow> Inr (Some e, w1)
                      | None \<Rightarrow>
                          and_then (updateFunc w1) (\<lambda>w2.
                            case objects w2 obj of
                              None \<Rightarrow> Inl NilDereference
                            | Some mutated \<Rightarrow>
                                let (err', written, s') =
                                      (if status then cStatusUpdate cl mutated opts (stores w2 c)
                                       else cUpdate cl mutated opts (stores w2 c))
                                in
                                Inr (err',
                                     w2\<lparr>objects := (objects w2)(obj \<mapsto> written),
                                        stores := (stores w2)(c := s'),
                                        events := events w2 @
                                          [if status then WriteStatus c obj else Write c obj]\<rparr>))))))"

text \<open>Modelled from the spec: \<open>komega.Update\<close>, the write to the resource's main body.\<close>

definition komega_Update ::
  "('v, 's, 'e, 'lo, 'uo) Client \<Rightarrow> komega \<Rightarrow> addr
     \<Rightarrow> (('v, 's) world \<Rightarrow> panic + ('v, 's) world) \<Rightarrow> 'uo list \<Rightarrow> ('v, 's) world
     \<Rightarrow> panic + ('e option, 'v, 's) probe" where
  "komega_Update = komega_write False"

text \<open>Modelled from the spec: \<open>komega.UpdateStatus\<close>, the write to the status sub-resource.\<close>

definition komega_UpdateStatus ::
  "('v, 's, 'e, 'lo, 'uo) Client \<Rightarrow> komega \<Rightarrow> addr
     \<Rightarrow> (('v, 's) world \<Rightarrow> panic + ('v, 's) world) \<Rightarrow> 'uo list \<Rightarrow> ('v, 's) world
     \<Rightarrow> panic + ('e option, 'v, 's) probe" where
  "komega_UpdateStatus = komega_write True"

section \<open>The package functions of \<open>default.go\<close>\<close>

text \<open>\<open>var defaultK = &komega{}\<close>: the state of the package when the process starts.\<close>

definition initial_world :: "(cid \<Rightarrow> 's) \<Rightarrow> ('v, 's) world" where
  "initial_world ss =
     \<lparr>defaultK = \<lparr>client = None\<rparr>, objects = Map.empty, object_lists = Map.empty,
      next_addr = 0, stores = ss, events = []\<rparr>"

definition SetClient :: "cid option \<Rightarrow> ('v, 's) world \<Rightarrow> ('v, 's) world" where
  "SetClient c w = w\<lparr>defaultK := \<lparr>client = c\<rparr>\<rparr>"

definition checkClient :: "('v, 's) world \<Rightarrow> panic + unit" where
  "checkClient w = (if client (defaultK w) = None then Inl ClientNotSet else Inr ())"

definition Get ::
  "('v, 's, 'e, 'lo, 'uo) Client \<Rightarrow> addr \<Rightarrow> ('v, 's) world
     \<Rightarrow> panic + ('e option, 'v, 's) probe \<times> ('v, 's) world" where
  "Get cl obj w =
     and_then (checkClient w) (\<lambda>_.
     and_then (komega_Get cl (defaultK w) obj w) (\<lambda>p. Inr (p, w)))"

definition List ::
  "('v, 's, 'e, 'lo, 'uo) Client \<Rightarrow> addr \<Rightarrow> 'lo list \<Rightarrow> ('v, 's) world
     \<Rightarrow> panic + ('e option, 'v, 's) probe \<times> ('v, 's) world" where
  "List cl obj opts w =
     and_then (checkClient w) (\<lambda>_. Inr (komega_List cl (defaultK w) obj opts, w))"

text \<open>The closure \<open>func() { f(obj) }\<close>: the mutator rewrites the instance in place.\<close>

definition call_mutator ::
  "('v object \<Rightarrow> 'v object) \<Rightarrow> addr \<Rightarrow> ('v, 's) world \<Rightarrow> panic + ('v, 's) world" where
  "call_mutator f obj w =
     (case objects w obj of
        None \<Rightarrow> Inl NilDereference
      | Some cur \<Rightarrow>
          Inr (w\<lparr>objects := (objects w)(obj \<mapsto> f cur), events := events w @ [Mutate obj]\<rparr>))"

definition Update ::
  "('v::default, 's, 'e, 'lo, 'uo) Client \<Rightarrow> NamespacedName \<Rightarrow> ('v object \<Rightarrow> 'v object)
     \<Rightarrow> 'uo list \<Rightarrow> ('v, 's) world
     \<Rightarrow> panic + ('e option, 'v, 's) probe \<times> ('v, 's) world" where
  "Update cl nn f opts w =
     and_then (checkClient w) (\<lambda>_.
     let (obj, w1) = new_object w in
     and_then (SetName obj (Name nn) w1) (\<lambda>w2.
     and_then (SetNamespace obj (Namespace nn) w2) (\<lambda>w3.
     and_then (komega_Update cl (defaultK w3) obj (call_mutator f obj) opts w3) (\<lambda>p.
     Inr (p, w3)))))"

definition UpdateStatus ::
  "('v::default, 's, 'e, 'lo, 'uo) Client \<Rightarrow> NamespacedName \<Rightarrow> ('v object \<Rightarrow> 'v object)
     \<Rightarrow> 'uo list \<Rightarrow> ('v, 's) world
     \<Rightarrow> panic + ('e option, 'v, 's) probe \<times> ('v, 's) world" where
  "UpdateStatus cl nn f opts w =
     and_then (checkClient w) (\<lambda>_.
     let (obj, w1) = new_object w in
     and_then (SetName obj (Name nn) w1) (\<lambda>w2.
     and_then (SetNamespace obj (Namespace nn) w2) (\<lambda>w3.
     and_then (komega_UpdateStatus cl (defaultK w3) obj (call_mutator f obj) opts w3) (\<lambda>p.
     Inr (p, w3)))))"

text \<open>The closure that \<open>Object\<close> returns: the body of its \<open>func() (T, error)\<close>.\<close>

definition Object_call ::
  "('v::default, 's, 'e, 'lo, 'uo) Client \<Rightarrow> NamespacedName
     \<Rightarrow> (addr \<times> 'e option, 'v, 's) probe" where
  "Object_call cl nn w =
     (let (obj, w1) = new_object w in
      and_then (SetName obj (Name nn) w1) (\<lambda>w2.
      and_then (SetNamespace obj (Namespace nn) w2) (\<lambda>w3.
      and_then (komega_Get cl (defaultK w3) obj w3) (\<lambda>g.
      and_then (g w3) (\<lambda>(err, w4).
      Inr ((obj, err), w4))))))"

definition Object ::
  "('v::default, 's, 'e, 'lo, 'uo) Client \<Rightarrow> NamespacedName \<Rightarrow> ('v, 's) world
     \<Rightarrow> panic + (addr \<times> 'e option, 'v, 's) probe \<times> ('v, 's) world" where
  "Object cl nn w = and_then (checkClient w) (\<lambda>_. Inr (Object_call cl nn, w))"

text \<open>The closure that \<open>ObjectList\<close> returns.\<close>

definition ObjectList_call ::
  "('v, 's, 'e, 'lo, 'uo) Client \<Rightarrow> 'lo list \<Rightarrow> (addr \<times> 'e option, 'v, 's) probe" where
  "ObjectList_call cl opts w =
     (let (obj, w1) = new_list w in
      and_then (komega_List cl (defaultK w1) obj opts w1) (\<lambda>(err, w2).
      Inr ((obj, err), w2)))"

definition ObjectList ::
  "('v, 's, 'e, 'lo, 'uo) Client \<Rightarrow> 'lo list \<Rightarrow> ('v, 's) world
     \<Rightarrow> panic + (addr \<times> 'e option, 'v, 's) probe \<times> ('v, 's) world" where
  "ObjectList cl opts w = and_then (checkClient w) (\<lambda>_. Inr (ObjectList_call cl opts, w))"

section \<open>Vocabulary of the properties\<close>

text \<open>
  Calling, in a later world \<open>w'\<close>, the function that a package function returned: the
  Go expression \<open>Get(obj)()\<close>, with any number of steps between the two calls.
\<close>

definition invoke ::
  "panic + ('r, 'v, 's) probe \<times> ('v, 's) world \<Rightarrow> ('r, 'v, 's) probe" where
  "invoke built w' = and_then built (\<lambda>(p, _). p w')"

definition key_of :: "'v object \<Rightarrow> NamespacedName" where
  "key_of ob = \<lparr>Namespace = meta_namespace ob, Name = meta_name ob\<rparr>"

text \<open>The zero value of \<open>V\<close> with the name and namespace of \<open>nn\<close> set, and nothing else.\<close>

definition stamped :: "NamespacedName \<Rightarrow> 'v::default object" where
  "stamped nn = \<lparr>meta_name = Name nn, meta_namespace = Namespace nn, body = default\<rparr>"

text \<open>The events that a call started in world \<open>w\<close> has added to the history.\<close>

definition effects_of :: "('v, 's) world \<Rightarrow> panic + 'r \<times> ('v, 's) world \<Rightarrow> panic + event list" where
  "effects_of w r =
     (case r of Inl p \<Rightarrow> Inl p | Inr (_, w') \<Rightarrow> Inr (drop (length (events w)) (events w')))"

text \<open>A round trip that reads the store.\<close>

fun is_read :: "event \<Rightarrow> bool" where
  "is_read (Fetch c key a) = True"
| "is_read (Listing c a) = True"
| "is_read _ = False"

text \<open>
  Every call of a mutator on an instance comes after a fetch into that instance, within
  the events given; \<open>seen\<close> holds the instances fetched so far.
\<close>

fun mutations_follow_fetch :: "addr list \<Rightarrow> event list \<Rightarrow> bool" where
  "mutations_follow_fetch seen [] = True"
| "mutations_follow_fetch seen (Fetch c key a # es) = mutations_follow_fetch (a # seen) es"
| "mutations_follow_fetch seen (Mutate a # es) = (a \<in> set seen \<and> mutations_follow_fetch seen es)"
| "mutations_follow_fetch seen (_ # es) = mutations_follow_fetch seen es"

text \<open>
  Every fetch, listing and mutator call of the events given is on an instance that these
  same events allocated before; \<open>fresh\<close> holds the instances allocated so far.
\<close>

fun on_fresh_instance :: "addr list \<Rightarrow> event list \<Rightarrow> bool" where
  "on_fresh_instance fresh [] = True"
| "on_fresh_instance fresh (Alloc a # es) = on_fresh_instance (a # fresh) es"
| "on_fresh_instance fresh (Fetch c key a # es) = (a \<in> set fresh \<and> on_fresh_instance fresh es)"
| "on_fresh_instance fresh (Listing c a # es) = (a \<in> set fresh \<and> on_fresh_instance fresh es)"
| "on_fresh_instance fresh (Mutate a # es) = (a \<in> set fresh \<and> on_fresh_instance fresh es)"
| "on_fresh_instance fresh (_ # es) = on_fresh_instance fresh es"

text \<open>
  The first thing a call does, allocation aside, is a read of the store.
\<close>

fun reads_first :: "event list \<Rightarrow> bool" where
  "reads_first [] = False"
| "reads_first (Alloc a # es) = reads_first es"
| "reads_first (e # es) = is_read e"

text \<open>No instance lives at or above the next address to be handed out.\<close>

definition heap_ok :: "('v, 's) world \<Rightarrow> bool" where
  "heap_ok w = (\<forall>a. next_addr w \<le> a \<longrightarrow> objects w a = None \<and> object_lists w a = None)"

section \<open>The store of the test\<close>

text \<open>
  The resource type of the test, \<open>appsv1.Deployment\<close>, reduced to the two fields that the
  test and the comments of \<open>default.go\<close> name: \<open>Spec.Replicas\<close>, a pointer to an
  \<open>int32\<close>, and \<open>Status.AvailableReplicas\<close>, an \<open>int32\<close>.
\<close>

datatype Deployment = Deployment (Replicas: "32 word option") (AvailableReplicas: "32 word")

instantiation Deployment :: default
begin

definition default_Deployment :: Deployment where
  "default_Deployment = Deployment None 0"

instance ..

end

datatype fake_error = NotFound

datatype ListOption = InNamespace string

definition same_identity :: "NamespacedName \<Rightarrow> 'v object \<Rightarrow> bool" where
  "same_identity key ob = (meta_namespace ob = Namespace key \<and> meta_name ob = Name key)"

text \<open>
  Modelled from the spec: the store behind the test's client, ``an abstract
  key/namespace-addressed object store supporting Get/List/Update/UpdateStatus
  operations'', here held in memory as the list of the stored resources.  A fetch or a
  write of an identity that is not stored fails with \<open>NotFound\<close> and leaves the instance
  as it was; a status write stores the status field only.
\<close>

definition fakeClient ::
  "(Deployment, Deployment object list, fake_error, ListOption, unit) Client" where
  "fakeClient =
     \<lparr>cGet = (\<lambda>key cur s.
        case find (same_identity key) s of
          None \<Rightarrow> (Some NotFound, cur)
        | Some stored \<Rightarrow> (None, stored)),
      cList = (\<lambda>opts cur s.
        (None, filter (\<lambda>ob. list_all (\<lambda>opt. case opt of InNamespace ns \<Rightarrow> meta_namespace ob = ns) opts) s)),
      cUpdate = (\<lambda>ob opts s.
        case find (same_identity (key_of ob)) s of
          None \<Rightarrow> (Some NotFound, ob, s)
        | Some stored \<Rightarrow>
            (None, ob, map (\<lambda>x. if same_identity (key_of ob) x then ob else x) s)),
      cStatusUpdate = (\<lambda>ob opts s.
        case find (same_identity (key_of ob)) s of
          None \<Rightarrow> (Some NotFound, ob, s)
        | Some stored \<Rightarrow>
            (let new = stored\<lparr>body := Deployment (Replicas (body stored))
                                                 (AvailableReplicas (body ob))\<rparr>
             in (None, new, map (\<lambda>x. if same_identity (key_of ob) x then new else x) s)))\<rparr>"

text \<open>
  Modelled from the spec: \<open>createFakeClient\<close> of the test, ``a store containing a
  resource named "test" in namespace "default" with a replica count of 5''.
\<close>

definition createFakeClient :: "Deployment object list" where
  "createFakeClient =
     [\<lparr>meta_name = ''test'', meta_namespace = ''default'', body = Deployment (Some 5) 0\<rparr>]"

text \<open>
  The world in which \<open>TestDefaultObject\<close> starts, and the one after its
  \<open>SetClient(fc)\<close>: client \<open>0\<close> is the fake client, every other client has an
  empty store.
\<close>

definition test_start :: "(Deployment, Deployment object list) world" where
  "test_start = initial_world ((\<lambda>_. [])(0 := createFakeClient))"

definition test_world :: "(Deployment, Deployment object list) world" where
  "test_world = SetClient (Some 0) test_start"

definition test_nn :: NamespacedName where
  "test_nn = \<lparr>Namespace = ''default'', Name = ''test''\<rparr>"

definition missing_nn :: NamespacedName where
  "missing_nn = \<lparr>Namespace = ''default'', Name = ''missing''\<rparr>"

text \<open>The world after \<open>Object(nn)\<close> has been built and called once in the test world.\<close>

definition object_called :: "(Deployment, Deployment object list) world" where
  "object_called =
     (case invoke (Object fakeClient test_nn test_world) test_world of
        Inl p \<Rightarrow> test_world
      | Inr (r, w1) \<Rightarrow> w1)"

text \<open>
  The test world after a caller has declared a \<open>Deployment\<close> with the name and
  namespace of the stored resource (at address \<open>0\<close>) and an empty list (at address
  \<open>1\<close>), the arguments of \<open>Get\<close> and \<open>List\<close>.
\<close>

definition caller_world :: "(Deployment, Deployment object list) world" where
  "caller_world =
     test_world\<lparr>objects := [0 \<mapsto> stamped test_nn], object_lists := [1 \<mapsto> []], next_addr := 2\<rparr>"

text \<open>The mutator of the comment on \<open>Update\<close>: \<open>deployment.Spec.Replicas = 3\<close>.\<close>

definition scale_to_3 :: "Deployment object \<Rightarrow> Deployment object" where
  "scale_to_3 ob = ob\<lparr>body := Deployment (Some 3) (AvailableReplicas (body ob))\<rparr>"

text \<open>
  The scenario of the comment on \<open>Update\<close>, in the world of the caller: the world after
  \<open>Update(nn, f)\<close> has returned its probe, and the world after the first call of that
  probe.
\<close>

definition caller_built :: "(Deployment, Deployment object list) world" where
  "caller_built =
     (case Update fakeClient test_nn scale_to_3 [] caller_world of
        Inl p \<Rightarrow> caller_world
      | Inr (p, w1) \<Rightarrow> w1)"

definition caller_called :: "(Deployment, Deployment object list) world" where
  "caller_called =
     (case invoke (Update fakeClient test_nn scale_to_3 [] caller_world) caller_built of
        Inl p \<Rightarrow> caller_built
      | Inr (r, w2) \<Rightarrow> w2)"

text \<open>
  The same caller after \<open>SetClient\<close> with client \<open>1\<close>, whose store is empty, and the
  world after \<open>Update(nn, f)\<close> has returned its probe there.
\<close>

definition empty_store_world :: "(Deployment, Deployment object list) world" where
  "empty_store_world = SetClient (Some 1) caller_world"

definition empty_store_built :: "(Deployment, Deployment object list) world" where
  "empty_store_built =
     (case Update fakeClient test_nn scale_to_3 [] empty_store_world of
        Inl p \<Rightarrow> empty_store_world
      | Inr (p, w1) \<Rightarrow> w1)"

section \<open>Running the package functions\<close>

lemma nn_eta: "\<lparr>Namespace = Namespace nn, Name = Name nn\<rparr> = (nn::NamespacedName)"
  by simp

lemma Get_unset: "client (defaultK w) = None \<Longrightarrow> Get cl obj w = Inl ClientNotSet"
  by (simp add: Get_def checkClient_def and_then_def)

lemma List_unset: "client (defaultK w) = None \<Longrightarrow> List cl obj opts w = Inl ClientNotSet"
  by (simp add: List_def checkClient_def and_then_def)

lemma Update_unset: "client (defaultK w) = None \<Longrightarrow> Update cl nn f opts w = Inl ClientNotSet"
  by (simp add: Update_def checkClient_def and_then_def)

lemma UpdateStatus_unset:
  "client (defaultK w) = None \<Longrightarrow> UpdateStatus cl nn f opts w = Inl ClientNotSet"
  by (simp add: UpdateStatus_def checkClient_def and_then_def)

lemma Object_unset: "client (defaultK w) = None \<Longrightarrow> Object cl nn w = Inl ClientNotSet"
  by (simp add: Object_def checkClient_def and_then_def)

lemma ObjectList_unset: "client (defaultK w) = None \<Longrightarrow> ObjectList cl opts w = Inl ClientNotSet"
  by (simp add: ObjectList_def checkClient_def and_then_def)

lemma Object_call_set:
  assumes "client (defaultK w) = Some c"
  shows "Object_call cl nn w =
    (case cGet cl nn (stamped nn) (stores w c) of (err, fetched) \<Rightarrow>
      Inr ((next_addr w, err),
           w\<lparr>objects := (objects w)(next_addr w \<mapsto> fetched),
             next_addr := Suc (next_addr w),
             events := events w @ [Alloc (next_addr w), Fetch c nn (next_addr w)]\<rparr>))"
  using assms
  by (simp add: Object_call_def new_object_def SetName_def SetNamespace_def and_then_def
      komega_Get_def stamped_def zero_value_def Let_def nn_eta split: prod.splits)

lemma Object_call_unset:
  assumes "client (defaultK w) = None"
  shows "Object_call cl nn w = Inl NilDereference"
  using assms
  by (simp add: Object_call_def new_object_def SetName_def SetNamespace_def and_then_def
      komega_Get_def split: prod.splits)



lemma Get_invoke:
  assumes "client (defaultK w) = Some c" and "objects w obj = Some ob"
    and "objects w' obj = Some cur"
  shows "invoke (Get cl obj w) w' =
    (case cGet cl (key_of ob) cur (stores w' c) of (err, fetched) \<Rightarrow>
      Inr (err, w'\<lparr>objects := (objects w')(obj \<mapsto> fetched),
                   events := events w' @ [Fetch c (key_of ob) obj]\<rparr>))"
  using assms
  by (simp add: invoke_def Get_def checkClient_def and_then_def komega_Get_def key_of_def
      Let_def split: prod.splits)

lemma List_invoke:
  assumes "client (defaultK w) = Some c" and "object_lists w' obj = Some cur"
  shows "invoke (List cl obj opts w) w' =
    (case cList cl opts cur (stores w' c) of (err, listed) \<Rightarrow>
      Inr (err, w'\<lparr>object_lists := (object_lists w')(obj \<mapsto> listed),
                   events := events w' @ [Listing c obj]\<rparr>))"
  using assms
  by (simp add: invoke_def List_def checkClient_def and_then_def komega_List_def
      Let_def split: prod.splits)

lemma Update_built:
  assumes "client (defaultK w) = Some c"
  shows "\<exists>p. Update cl nn f opts w =
    Inr (p, w\<lparr>objects := (objects w)(next_addr w \<mapsto> stamped nn),
              next_addr := Suc (next_addr w),
              events := events w @ [Alloc (next_addr w)]\<rparr>)"
  using assms
  by (simp add: Update_def checkClient_def and_then_def new_object_def SetName_def
      SetNamespace_def komega_Update_def komega_write_def stamped_def zero_value_def Let_def)

lemma UpdateStatus_built:
  assumes "client (defaultK w) = Some c"
  shows "\<exists>p. UpdateStatus cl nn f opts w =
    Inr (p, w\<lparr>objects := (objects w)(next_addr w \<mapsto> stamped nn),
              next_addr := Suc (next_addr w),
              events := events w @ [Alloc (next_addr w)]\<rparr>)"
  using assms
  by (simp add: UpdateStatus_def checkClient_def and_then_def new_object_def SetName_def
      SetNamespace_def komega_UpdateStatus_def komega_write_def stamped_def zero_value_def Let_def)

lemma Update_invoke:
  assumes "client (defaultK w) = Some c" and "objects w' (next_addr w) = Some cur"
  shows "invoke (Update cl nn f opts w) w' =
    (case cGet cl nn cur (stores w' c) of
       (Some e, fetched) \<Rightarrow>
         Inr (Some e, w'\<lparr>objects := (objects w')(next_addr w \<mapsto> fetched),
                         events := events w' @ [Fetch c nn (next_addr w)]\<rparr>)
     | (None, fetched) \<Rightarrow>
         (case cUpdate cl (f fetched) opts (stores w' c) of (err, written, s') \<Rightarrow>
            Inr (err, w'\<lparr>objects := (objects w')(next_addr w \<mapsto> written),
                         stores := (stores w')(c := s'),
                         events := events w' @
                           [Fetch c nn (next_addr w), Mutate (next_addr w),
                            Write c (next_addr w)]\<rparr>)))"
  using assms
  by (simp add: invoke_def Update_def checkClient_def and_then_def new_object_def SetName_def
      SetNamespace_def komega_Update_def komega_write_def call_mutator_def zero_value_def
      Let_def nn_eta split: prod.splits option.splits)

lemma UpdateStatus_invoke:
  assumes "client (defaultK w) = Some c" and "objects w' (next_addr w) = Some cur"
  shows "invoke (UpdateStatus cl nn f opts w) w' =
    (case cGet cl nn cur (stores w' c) of
       (Some e, fetched) \<Rightarrow>
         Inr (Some e, w'\<lparr>objects := (objects w')(next_addr w \<mapsto> fetched),
                         events := events w' @ [Fetch c nn (next_addr w)]\<rparr>)
     | (None, fetched) \<Rightarrow>
         (case cStatusUpdate cl (f fetched) opts (stores w' c) of (err, written, s') \<Rightarrow>
            Inr (err, w'\<lparr>objects := (objects w')(next_addr w \<mapsto> written),
                         stores := (stores w')(c := s'),
                         events := events w' @
                           [Fetch c nn (next_addr w), Mutate (next_addr w),
                            WriteStatus c (next_addr w)]\<rparr>)))"
  using assms
  by (simp add: invoke_def UpdateStatus_def checkClient_def and_then_def new_object_def
      SetName_def SetNamespace_def komega_UpdateStatus_def komega_write_def call_mutator_def
      zero_value_def Let_def nn_eta split: prod.splits option.splits)

lemma Object_invoke:
  assumes "client (defaultK w) = Some c"
  shows "invoke (Object cl nn w) w' = Object_call cl nn w'"
  using assms by (simp add: invoke_def Object_def checkClient_def and_then_def)

lemma ObjectList_invoke:
  assumes "client (defaultK w) = Some c"
  shows "invoke (ObjectList cl opts w) w' = ObjectList_call cl opts w'"
  using assms by (simp add: invoke_def ObjectList_def checkClient_def and_then_def)

lemma ObjectList_call_set:
  assumes "client (defaultK w) = Some c"
  shows "ObjectList_call cl opts w =
    (case cList cl opts [] (stores w c) of (err, listed) \<Rightarrow>
      Inr ((next_addr w, err),
           w\<lparr>object_lists := (object_lists w)(next_addr w \<mapsto> listed),
             next_addr := Suc (next_addr w),
             events := events w @ [Alloc (next_addr w), Listing c (next_addr w)]\<rparr>))"
  using assms
  by (simp add: ObjectList_call_def new_list_def and_then_def komega_List_def Let_def
      split: prod.splits)

lemma ObjectList_call_unset:
  assumes "client (defaultK w) = None"
  shows "ObjectList_call cl opts w = Inl NilDereference"
  using assms
  by (simp add: ObjectList_call_def new_list_def and_then_def komega_List_def Let_def
      split: prod.splits)

section \<open>The configuration error\<close>

text \<open>
  C2.  While the store handle of the package is nil (the state at start, and the state
  until \<open>SetClient\<close> is given a client), each of \<open>Get\<close>, \<open>List\<close>, \<open>Update\<close>,
  \<open>UpdateStatus\<close>, \<open>Object\<close> and \<open>ObjectList\<close> panics with the configuration error
  at once: the call returns no probe at all, so nothing is deferred into a probe's result.
\<close>

theorem unconfigured_panics:
  assumes "client (defaultK w) = None"
  shows "Get cl obj w = Inl ClientNotSet
       \<and> List cl lobj lopts w = Inl ClientNotSet
       \<and> Update cl nn f uopts w = Inl ClientNotSet
       \<and> UpdateStatus cl nn f uopts w = Inl ClientNotSet
       \<and> Object cl nn w = Inl ClientNotSet
       \<and> ObjectList cl lopts w = Inl ClientNotSet"
  using assms
  by (simp add: Get_unset List_unset Update_unset UpdateStatus_unset Object_unset
      ObjectList_unset)

theorem unconfigured_panics_witness:
  "client (defaultK test_start) = None
   \<and> Get fakeClient 0 test_start = Inl ClientNotSet
   \<and> List fakeClient 0 [] test_start = Inl ClientNotSet
   \<and> Update fakeClient test_nn id [] test_start = Inl ClientNotSet
   \<and> UpdateStatus fakeClient test_nn id [] test_start = Inl ClientNotSet
   \<and> Object fakeClient test_nn test_start = Inl ClientNotSet
   \<and> ObjectList fakeClient [] test_start = Inl ClientNotSet"
proof -
  have h: "client (defaultK test_start) = None"
    by (simp add: test_start_def initial_world_def)
  show ?thesis
    using h unconfigured_panics [OF h, of fakeClient 0 0 "[]" test_nn id "[]"] by simp
qed

text \<open>
  C10.  \<open>SetClient(nil)\<close> leaves the package unconfigured: after it, each of the six
  package functions panics with the ``client is not set'' error, which is also what each
  does in the world where \<open>SetClient\<close> was never called.
\<close>

theorem SetClient_nil_unconfigured:
  "Get cl obj (SetClient None w) = Inl ClientNotSet
   \<and> List cl lobj lopts (SetClient None w) = Inl ClientNotSet
   \<and> Update cl nn f uopts (SetClient None w) = Inl ClientNotSet
   \<and> UpdateStatus cl nn f uopts (SetClient None w) = Inl ClientNotSet
   \<and> Object cl nn (SetClient None w) = Inl ClientNotSet
   \<and> ObjectList cl lopts (SetClient None w) = Inl ClientNotSet
   \<and> Get cl obj (SetClient None w) = Get cl obj (initial_world ss)
   \<and> List cl lobj lopts (SetClient None w) = List cl lobj lopts (initial_world ss)
   \<and> Update cl nn f uopts (SetClient None w) = Update cl nn f uopts (initial_world ss)
   \<and> UpdateStatus cl nn f uopts (SetClient None w)
       = UpdateStatus cl nn f uopts (initial_world ss)
   \<and> Object cl nn (SetClient None w) = Object cl nn (initial_world ss)
   \<and> ObjectList cl lopts (SetClient None w) = ObjectList cl lopts (initial_world ss)"
proof -
  have a: "client (defaultK (SetClient None w)) = None"
    by (simp add: SetClient_def)
  have b: "client (defaultK (initial_world ss :: ('a, 'b) world)) = None"
    by (simp add: initial_world_def)
  show ?thesis
    by (simp add: Get_unset [OF a] List_unset [OF a] Update_unset [OF a]
        UpdateStatus_unset [OF a] Object_unset [OF a] ObjectList_unset [OF a]
        Get_unset [OF b] List_unset [OF b] Update_unset [OF b]
        UpdateStatus_unset [OF b] Object_unset [OF b] ObjectList_unset [OF b])
qed

section \<open>The probes of \<open>Object\<close> and \<open>ObjectList\<close>\<close>

lemma Object_call_instance:
  assumes "client (defaultK w) = Some c"
  shows "\<exists>e w1. Object_call cl nn w = Inr ((next_addr w, e), w1)
           \<and> next_addr w1 = Suc (next_addr w) \<and> defaultK w1 = defaultK w
           \<and> stores w1 = stores w
           \<and> objects w1 = (objects w)(next_addr w \<mapsto> snd (cGet cl nn (stamped nn) (stores w c)))
           \<and> object_lists w1 = object_lists w"
  by (simp add: Object_call_set [OF assms] split: prod.splits)

lemma ObjectList_call_instance:
  assumes "client (defaultK w) = Some c"
  shows "\<exists>e w1. ObjectList_call cl opts w = Inr ((next_addr w, e), w1)
           \<and> next_addr w1 = Suc (next_addr w) \<and> defaultK w1 = defaultK w
           \<and> stores w1 = stores w
           \<and> object_lists w1 = (object_lists w)(next_addr w \<mapsto> snd (cList cl opts [] (stores w c)))
           \<and> objects w1 = objects w"
  by (simp add: ObjectList_call_set [OF assms] split: prod.splits)

lemma test_world_client: "client (defaultK test_world) = Some 0"
  by (simp add: test_world_def SetClient_def)

lemma test_world_next: "next_addr test_world = 0"
  by (simp add: test_world_def test_start_def SetClient_def initial_world_def)

lemma test_world_heap_ok: "heap_ok test_world"
  by (simp add: heap_ok_def test_world_def test_start_def SetClient_def initial_world_def)

lemma test_world_store: "stores test_world 0 = createFakeClient"
  by (simp add: test_world_def test_start_def SetClient_def initial_world_def)

lemma fake_get_missing:
  "cGet fakeClient missing_nn cur createFakeClient = (Some NotFound, cur)"
  by (simp add: fakeClient_def createFakeClient_def missing_nn_def same_identity_def)

lemma fake_get_test:
  "cGet fakeClient test_nn cur createFakeClient =
     (None, \<lparr>meta_name = ''test'', meta_namespace = ''default'', body = Deployment (Some 5) 0\<rparr>)"
  by (simp add: fakeClient_def createFakeClient_def test_nn_def same_identity_def)

lemma object_called_eq:
  "object_called =
     test_world\<lparr>objects := (objects test_world)
                  (0 \<mapsto> \<lparr>meta_name = ''test'', meta_namespace = ''default'',
                          body = Deployment (Some 5) 0\<rparr>),
                next_addr := Suc 0,
                events := events test_world @ [Alloc 0, Fetch 0 test_nn 0]\<rparr>"
  by (simp add: object_called_def Object_invoke [OF test_world_client]
      Object_call_set [OF test_world_client] test_world_store fake_get_test test_world_next)

lemma object_called_fields:
  "client (defaultK object_called) = Some 0"
  "next_addr object_called = Suc 0"
  by (simp_all add: object_called_eq test_world_client)

text \<open>
  C4.  The function returned by \<open>Object(nn)\<close>, called in any world whose handle is set:
  it allocates an instance at an address that held nothing, gives the store the zero
  value with the name and namespace of \<open>nn\<close> set, under the key \<open>nn\<close>, keeps what the
  store wrote into the instance, and returns the instance with the store's error.  When
  the store answers with an error and leaves the instance as it was (an identity that
  does not exist), the call returns that error and the instance holds the name and the
  namespace and nothing else.
\<close>

theorem Object_fresh_stamped_fetch:
  assumes "client (defaultK w) = Some cb" and "client (defaultK w') = Some c"
    and "heap_ok w'"
  shows "objects w' (next_addr w') = None
    \<and> invoke (Object cl nn w) w' =
       (case cGet cl nn (stamped nn) (stores w' c) of (err, fetched) \<Rightarrow>
          Inr ((next_addr w', err),
               w'\<lparr>objects := (objects w')(next_addr w' \<mapsto> fetched),
                  next_addr := Suc (next_addr w'),
                  events := events w' @ [Alloc (next_addr w'), Fetch c nn (next_addr w')]\<rparr>))
    \<and> (\<exists>evs. effects_of w' (invoke (Object cl nn w) w') = Inr evs \<and> on_fresh_instance [] evs)
    \<and> (cGet cl nn (stamped nn) (stores w' c) = (Some e, stamped nn) \<longrightarrow>
         (\<exists>w''. invoke (Object cl nn w) w' = Inr ((next_addr w', Some e), w'')
                \<and> objects w'' (next_addr w') = Some (stamped nn)))"
proof -
  have a: "objects w' (next_addr w') = None"
    using assms(3) by (simp add: heap_ok_def)
  have b: "invoke (Object cl nn w) w' = Object_call cl nn w'"
    by (rule Object_invoke [OF assms(1)])
  have f: "\<exists>evs. effects_of w' (invoke (Object cl nn w) w') = Inr evs \<and> on_fresh_instance [] evs"
    by (simp add: b Object_call_set [OF assms(2)] effects_of_def split: prod.splits)
  show ?thesis
    using f by (simp add: a b Object_call_set [OF assms(2)])
qed

theorem Object_fresh_stamped_fetch_witness:
  "client (defaultK test_world) = Some 0 \<and> heap_ok test_world
   \<and> cGet fakeClient missing_nn (stamped missing_nn) (stores test_world 0)
       = (Some NotFound, stamped missing_nn)
   \<and> (\<exists>w''. invoke (Object fakeClient missing_nn test_world) test_world
               = Inr ((0, Some NotFound), w'')
            \<and> objects w'' 0 = Some \<lparr>meta_name = ''missing'', meta_namespace = ''default'',
                                     body = Deployment None 0\<rparr>)"
proof -
  have g: "cGet fakeClient missing_nn (stamped missing_nn) (stores test_world 0)
             = (Some NotFound, stamped missing_nn)"
    by (simp add: test_world_store fake_get_missing)
  have s: "(stamped missing_nn :: Deployment object)
             = \<lparr>meta_name = ''missing'', meta_namespace = ''default'', body = Deployment None 0\<rparr>"
    by (simp add: stamped_def missing_nn_def default_Deployment_def)
  show ?thesis
    using Object_fresh_stamped_fetch [OF test_world_client test_world_client test_world_heap_ok,
        of fakeClient missing_nn NotFound] g
    by (simp add: test_world_next s test_world_client test_world_heap_ok)
qed

text \<open>
  C5.  Two consecutive calls of the function returned by \<open>Object\<close>, or by
  \<open>ObjectList\<close>, return two different instances, whatever their contents: the address
  each call returns held nothing before that call and holds, after it, the instance that
  the store filled; the two addresses differ, and the second call leaves the instance of
  the first as it was.  A call in any later world (one where more has been allocated, as
  after the first call) returns a newly filled instance at another address than the
  first call's and does not touch that address.
\<close>

theorem Object_probes_return_distinct_instances:
  assumes "client (defaultK w) = Some cb" and "client (defaultK w') = Some c"
    and "heap_ok w'"
    and "next_addr w' < next_addr later" and "client (defaultK later) = Some cl'"
  shows "(\<exists>a1 e1 w1 a2 e2 w2 a3 e3 w4.
            invoke (Object cl nn w) w' = Inr ((a1, e1), w1)
          \<and> objects w' a1 = None
          \<and> objects w1 a1 = Some (snd (cGet cl nn (stamped nn) (stores w' c)))
          \<and> next_addr w' < next_addr w1
          \<and> invoke (Object cl nn w) w1 = Inr ((a2, e2), w2) \<and> a1 \<noteq> a2
          \<and> objects w1 a2 = None
          \<and> objects w2 a2 = Some (snd (cGet cl nn (stamped nn) (stores w1 c)))
          \<and> objects w2 a1 = objects w1 a1
          \<and> invoke (Object cl nn w) later = Inr ((a3, e3), w4) \<and> a1 \<noteq> a3
          \<and> objects w4 a3 = Some (snd (cGet cl nn (stamped nn) (stores later cl')))
          \<and> objects w4 a1 = objects later a1)
       \<and> (\<exists>a1 e1 w1 a2 e2 w2 a3 e3 w4.
            invoke (ObjectList cl opts w) w' = Inr ((a1, e1), w1)
          \<and> object_lists w' a1 = None
          \<and> object_lists w1 a1 = Some (snd (cList cl opts [] (stores w' c)))
          \<and> next_addr w' < next_addr w1
          \<and> invoke (ObjectList cl opts w) w1 = Inr ((a2, e2), w2) \<and> a1 \<noteq> a2
          \<and> object_lists w1 a2 = None
          \<and> object_lists w2 a2 = Some (snd (cList cl opts [] (stores w1 c)))
          \<and> object_lists w2 a1 = object_lists w1 a1
          \<and> invoke (ObjectList cl opts w) later = Inr ((a3, e3), w4) \<and> a1 \<noteq> a3
          \<and> object_lists w4 a3 = Some (snd (cList cl opts [] (stores later cl')))
          \<and> object_lists w4 a1 = object_lists later a1)"
proof -
  have fresh: "objects w' (next_addr w') = None" "object_lists w' (next_addr w') = None"
    "objects w' (Suc (next_addr w')) = None" "object_lists w' (Suc (next_addr w')) = None"
    using assms(3) by (simp_all add: heap_ok_def)
  obtain e1 w1 where 1: "Object_call cl nn w' = Inr ((next_addr w', e1), w1)"
    and n1: "next_addr w1 = Suc (next_addr w')" and d1: "defaultK w1 = defaultK w'"
    and o1: "objects w1 = (objects w')(next_addr w' \<mapsto> snd (cGet cl nn (stamped nn) (stores w' c)))"
    using Object_call_instance [OF assms(2)] by blast
  have c1: "client (defaultK w1) = Some c" using d1 assms(2) by simp
  obtain e2 w2 where 2: "Object_call cl nn w1 = Inr ((next_addr w1, e2), w2)"
    and o2: "objects w2 = (objects w1)(next_addr w1 \<mapsto> snd (cGet cl nn (stamped nn) (stores w1 c)))"
    using Object_call_instance [OF c1] by blast
  obtain e3 w4 where 3: "Object_call cl nn later = Inr ((next_addr later, e3), w4)"
    and o3: "objects w4 = (objects later)(next_addr later \<mapsto> snd (cGet cl nn (stamped nn) (stores later cl')))"
    using Object_call_instance [OF assms(5)] by blast
  have obj: "\<exists>a1 e1 w1 a2 e2 w2 a3 e3 w4.
            invoke (Object cl nn w) w' = Inr ((a1, e1), w1)
          \<and> objects w' a1 = None
          \<and> objects w1 a1 = Some (snd (cGet cl nn (stamped nn) (stores w' c)))
          \<and> next_addr w' < next_addr w1
          \<and> invoke (Object cl nn w) w1 = Inr ((a2, e2), w2) \<and> a1 \<noteq> a2
          \<and> objects w1 a2 = None
          \<and> objects w2 a2 = Some (snd (cGet cl nn (stamped nn) (stores w1 c)))
          \<and> objects w2 a1 = objects w1 a1
          \<and> invoke (Object cl nn w) later = Inr ((a3, e3), w4) \<and> a1 \<noteq> a3
          \<and> objects w4 a3 = Some (snd (cGet cl nn (stamped nn) (stores later cl')))
          \<and> objects w4 a1 = objects later a1"
    using 1 2 3 n1 o1 o2 o3 assms(4) fresh by (simp add: Object_invoke [OF assms(1)])
  obtain le1 lw1 where l1: "ObjectList_call cl opts w' = Inr ((next_addr w', le1), lw1)"
    and ln1: "next_addr lw1 = Suc (next_addr w')" and ld1: "defaultK lw1 = defaultK w'"
    and lo1: "object_lists lw1 = (object_lists w')(next_addr w' \<mapsto> snd (cList cl opts [] (stores w' c)))"
    using ObjectList_call_instance [OF assms(2)] by blast
  have lc1: "client (defaultK lw1) = Some c" using ld1 assms(2) by simp
  obtain le2 lw2 where l2: "ObjectList_call cl opts lw1 = Inr ((next_addr lw1, le2), lw2)"
    and lo2: "object_lists lw2 = (object_lists lw1)(next_addr lw1 \<mapsto> snd (cList cl opts [] (stores lw1 c)))"
    using ObjectList_call_instance [OF lc1] by blast
  obtain le3 lw4 where l3: "ObjectList_call cl opts later = Inr ((next_addr later, le3), lw4)"
    and lo3: "object_lists lw4 = (object_lists later)(next_addr later \<mapsto> snd (cList cl opts [] (stores later cl')))"
    using ObjectList_call_instance [OF assms(5)] by blast
  have lst: "\<exists>a1 e1 w1 a2 e2 w2 a3 e3 w4.
            invoke (ObjectList cl opts w) w' = Inr ((a1, e1), w1)
          \<and> object_lists w' a1 = None
          \<and> object_lists w1 a1 = Some (snd (cList cl opts [] (stores w' c)))
          \<and> next_addr w' < next_addr w1
          \<and> invoke (ObjectList cl opts w) w1 = Inr ((a2, e2), w2) \<and> a1 \<noteq> a2
          \<and> object_lists w1 a2 = None
          \<and> object_lists w2 a2 = Some (snd (cList cl opts [] (stores w1 c)))
          \<and> object_lists w2 a1 = object_lists w1 a1
          \<and> invoke (ObjectList cl opts w) later = Inr ((a3, e3), w4) \<and> a1 \<noteq> a3
          \<and> object_lists w4 a3 = Some (snd (cList cl opts [] (stores later cl')))
          \<and> object_lists w4 a1 = object_lists later a1"
    using l1 l2 l3 ln1 lo1 lo2 lo3 assms(4) fresh by (simp add: ObjectList_invoke [OF assms(1)])
  show ?thesis using obj lst by simp
qed

theorem Object_probes_return_distinct_instances_witness:
  "client (defaultK test_world) = Some 0
   \<and> heap_ok test_world
   \<and> next_addr test_world < next_addr object_called
   \<and> client (defaultK object_called) = Some 0
   \<and> (\<exists>a1 e1 w1 a2 e2 w2 a3 e3 w4.
            invoke (Object fakeClient test_nn test_world) test_world = Inr ((a1, e1), w1)
          \<and> objects test_world a1 = None
          \<and> objects w1 a1 = Some (snd (cGet fakeClient test_nn (stamped test_nn) (stores test_world 0)))
          \<and> next_addr test_world < next_addr w1
          \<and> invoke (Object fakeClient test_nn test_world) w1 = Inr ((a2, e2), w2) \<and> a1 \<noteq> a2
          \<and> objects w1 a2 = None
          \<and> objects w2 a2 = Some (snd (cGet fakeClient test_nn (stamped test_nn) (stores w1 0)))
          \<and> objects w2 a1 = objects w1 a1
          \<and> invoke (Object fakeClient test_nn test_world) object_called = Inr ((a3, e3), w4)
          \<and> a1 \<noteq> a3
          \<and> objects w4 a3
               = Some (snd (cGet fakeClient test_nn (stamped test_nn) (stores object_called 0)))
          \<and> objects w4 a1 = objects object_called a1)
   \<and> (\<exists>a1 e1 w1 a2 e2 w2 a3 e3 w4.
            invoke (ObjectList fakeClient [] test_world) test_world = Inr ((a1, e1), w1)
          \<and> object_lists test_world a1 = None
          \<and> object_lists w1 a1 = Some (snd (cList fakeClient [] [] (stores test_world 0)))
          \<and> next_addr test_world < next_addr w1
          \<and> invoke (ObjectList fakeClient [] test_world) w1 = Inr ((a2, e2), w2) \<and> a1 \<noteq> a2
          \<and> object_lists w1 a2 = None
          \<and> object_lists w2 a2 = Some (snd (cList fakeClient [] [] (stores w1 0)))
          \<and> object_lists w2 a1 = object_lists w1 a1
          \<and> invoke (ObjectList fakeClient [] test_world) object_called = Inr ((a3, e3), w4)
          \<and> a1 \<noteq> a3
          \<and> object_lists w4 a3 = Some (snd (cList fakeClient [] [] (stores object_called 0)))
          \<and> object_lists w4 a1 = object_lists object_called a1)"
proof -
  have l: "next_addr test_world < next_addr object_called"
    by (simp add: object_called_fields test_world_next)
  show ?thesis
    using Object_probes_return_distinct_instances [OF test_world_client test_world_client
        test_world_heap_ok l object_called_fields(1), of fakeClient test_nn "[]"]
      l object_called_fields(1) test_world_client test_world_heap_ok
    by simp
qed

section \<open>The worlds of the scenarios\<close>

lemma caller_world_fields:
  "client (defaultK caller_world) = Some 0"
  "objects caller_world 0 = Some (stamped test_nn)"
  "object_lists caller_world 1 = Some []"
  "next_addr caller_world = 2"
  "stores caller_world 0 = createFakeClient"
  "stores caller_world (Suc 0) = []"
  "events caller_world = []"
  "object_lists caller_world (Suc 0) = Some []"
  by (simp_all add: caller_world_def test_world_def test_start_def SetClient_def initial_world_def)

lemma key_of_stamped: "key_of (stamped nn) = nn"
  by (simp add: key_of_def stamped_def)

lemma SetClient_fields:
  "defaultK (SetClient c w) = \<lparr>client = c\<rparr>"
  "objects (SetClient c w) = objects w"
  "object_lists (SetClient c w) = object_lists w"
  "next_addr (SetClient c w) = next_addr w"
  "stores (SetClient c w) = stores w"
  "events (SetClient c w) = events w"
  by (simp_all add: SetClient_def)

lemma fake_get_empty: "cGet fakeClient key cur [] = (Some NotFound, cur)"
  by (simp add: fakeClient_def)

lemma fake_list_all: "cList fakeClient [] cur s = (None, s)"
  by (simp add: fakeClient_def)

lemma caller_built_eq:
  "caller_built = caller_world\<lparr>objects := (objects caller_world)(2 \<mapsto> stamped test_nn),
                     next_addr := 3, events := [Alloc 2]\<rparr>"
  using Update_built [OF caller_world_fields(1), of fakeClient test_nn scale_to_3 "[]"]
  by (auto simp add: caller_built_def caller_world_fields)

lemma caller_built_fields:
  "client (defaultK caller_built) = Some 0"
  "objects caller_built 0 = Some (stamped test_nn)"
  "objects caller_built 2 = Some (stamped test_nn)"
  "object_lists caller_built 1 = Some []"
  "object_lists caller_built (Suc 0) = Some []"
  "next_addr caller_built = 3"
  "stores caller_built 0 = createFakeClient"
  "events caller_built = [Alloc 2]"
  by (simp_all add: caller_built_eq caller_world_fields)

lemma fake_update_scaled:
  "cUpdate fakeClient
     (scale_to_3 \<lparr>meta_name = ''test'', meta_namespace = ''default'', body = Deployment (Some 5) 0\<rparr>)
     [] createFakeClient =
   (None, \<lparr>meta_name = ''test'', meta_namespace = ''default'', body = Deployment (Some 3) 0\<rparr>,
    [\<lparr>meta_name = ''test'', meta_namespace = ''default'', body = Deployment (Some 3) 0\<rparr>])"
  by (simp add: fakeClient_def createFakeClient_def scale_to_3_def same_identity_def key_of_def)

lemma fake_status_update_scaled:
  "cStatusUpdate fakeClient
     (scale_to_3 \<lparr>meta_name = ''test'', meta_namespace = ''default'', body = Deployment (Some 5) 0\<rparr>)
     [] createFakeClient =
   (None, \<lparr>meta_name = ''test'', meta_namespace = ''default'', body = Deployment (Some 5) 0\<rparr>,
    [\<lparr>meta_name = ''test'', meta_namespace = ''default'', body = Deployment (Some 5) 0\<rparr>])"
  by (simp add: fakeClient_def createFakeClient_def scale_to_3_def same_identity_def key_of_def Let_def)

lemma first_call:
  "invoke (Update fakeClient test_nn scale_to_3 [] caller_world) caller_built =
     Inr (None, caller_built\<lparr>objects := (objects caller_built)
              (2 \<mapsto> \<lparr>meta_name = ''test'', meta_namespace = ''default'',
                      body = Deployment (Some 3) 0\<rparr>),
            stores := (stores caller_built)
              (0 := [\<lparr>meta_name = ''test'', meta_namespace = ''default'',
                      body = Deployment (Some 3) 0\<rparr>]),
            events := [Alloc 2, Fetch 0 test_nn 2, Mutate 2, Write 0 2]\<rparr>)"
  using Update_invoke [OF caller_world_fields(1), of caller_built "stamped test_nn"
      fakeClient test_nn scale_to_3 "[]"]
  by (simp add: caller_world_fields caller_built_fields fake_get_test fake_update_scaled)

lemma empty_store_world_fields:
  "client (defaultK empty_store_world) = Some 1"
  "objects empty_store_world 0 = Some (stamped test_nn)"
  "next_addr empty_store_world = 2"
  "events empty_store_world = []"
  by (simp_all add: empty_store_world_def SetClient_def caller_world_fields)

lemma empty_store_built_eq:
  "empty_store_built =
     empty_store_world\<lparr>objects := (objects empty_store_world)(2 \<mapsto> stamped test_nn),
                       next_addr := 3, events := [Alloc 2]\<rparr>"
  using Update_built [OF empty_store_world_fields(1), of fakeClient test_nn scale_to_3 "[]"]
  by (auto simp add: empty_store_built_def empty_store_world_fields)

lemma empty_store_built_fields:
  "client (defaultK empty_store_built) = Some 1"
  "objects empty_store_built 0 = Some (stamped test_nn)"
  "objects empty_store_built 2 = Some (stamped test_nn)"
  "object_lists empty_store_built 1 = Some []"
  "object_lists empty_store_built (Suc 0) = Some []"
  "next_addr empty_store_built = 3"
  "stores empty_store_built 1 = []"
  "stores empty_store_built (Suc 0) = []"
  by (simp_all add: empty_store_built_eq empty_store_world_def SetClient_def caller_world_fields)

lemma caller_called_eq:
  "caller_called = caller_built\<lparr>objects := (objects caller_built)
              (2 \<mapsto> \<lparr>meta_name = ''test'', meta_namespace = ''default'',
                      body = Deployment (Some 3) 0\<rparr>),
            stores := (stores caller_built)
              (0 := [\<lparr>meta_name = ''test'', meta_namespace = ''default'',
                      body = Deployment (Some 3) 0\<rparr>]),
            events := [Alloc 2, Fetch 0 test_nn 2, Mutate 2, Write 0 2]\<rparr>"
  by (simp add: caller_called_def first_call)

section \<open>The scenario of the test\<close>


section \<open>Which store a probe uses\<close>

text \<open>
  C8.  A probe of \<open>Get\<close> or \<open>List\<close> built while the handle was client \<open>c\<close> goes to
  the store of \<open>c\<close> when it is called after any later \<open>SetClient\<close>, whatever that set.
  The functions returned by \<open>Object\<close> and \<open>ObjectList\<close> go to the store of the client
  that the handle holds when they are called: after \<open>SetClient\<close> with client \<open>c2\<close> they
  read the store of \<open>c2\<close>, and after \<open>SetClient(nil)\<close> they dereference nil.
\<close>

theorem handle_binding:
  assumes "client (defaultK w) = Some c" and "objects w obj = Some ob"
    and "objects w' obj = Some cur" and "object_lists w' lobj = Some lcur"
  shows "invoke (Get cl obj w) (SetClient c' w') =
           (case cGet cl (key_of ob) cur (stores w' c) of (err, fetched) \<Rightarrow>
              Inr (err, (SetClient c' w')\<lparr>objects := (objects w')(obj \<mapsto> fetched),
                          events := events w' @ [Fetch c (key_of ob) obj]\<rparr>))
    \<and> invoke (List cl lobj opts w) (SetClient c' w') =
           (case cList cl opts lcur (stores w' c) of (err, listed) \<Rightarrow>
              Inr (err, (SetClient c' w')\<lparr>object_lists := (object_lists w')(lobj \<mapsto> listed),
                          events := events w' @ [Listing c lobj]\<rparr>))
    \<and> invoke (Object cl nn w) (SetClient (Some c2) w') =
           (case cGet cl nn (stamped nn) (stores w' c2) of (err, fetched) \<Rightarrow>
              Inr ((next_addr w', err),
                   (SetClient (Some c2) w')\<lparr>objects := (objects w')(next_addr w' \<mapsto> fetched),
                      next_addr := Suc (next_addr w'),
                      events := events w' @ [Alloc (next_addr w'), Fetch c2 nn (next_addr w')]\<rparr>))
    \<and> invoke (ObjectList cl opts w) (SetClient (Some c2) w') =
           (case cList cl opts [] (stores w' c2) of (err, listed) \<Rightarrow>
              Inr ((next_addr w', err),
                   (SetClient (Some c2) w')\<lparr>object_lists := (object_lists w')(next_addr w' \<mapsto> listed),
                      next_addr := Suc (next_addr w'),
                      events := events w' @ [Alloc (next_addr w'), Listing c2 (next_addr w')]\<rparr>))
    \<and> invoke (Object cl nn w) (SetClient None w') = Inl NilDereference
    \<and> invoke (ObjectList cl opts w) (SetClient None w') = Inl NilDereference"
proof -
  have s: "client (defaultK (SetClient (Some c2) w')) = Some c2"
    and n: "client (defaultK (SetClient None w')) = None"
    by (simp_all add: SetClient_def)
  have o': "objects (SetClient c' w') obj = Some cur"
    and l': "object_lists (SetClient c' w') lobj = Some lcur"
    using assms(3,4) by (simp_all add: SetClient_def)
  have 1: "invoke (Get cl obj w) (SetClient c' w') =
           (case cGet cl (key_of ob) cur (stores w' c) of (err, fetched) \<Rightarrow>
              Inr (err, (SetClient c' w')\<lparr>objects := (objects w')(obj \<mapsto> fetched),
                          events := events w' @ [Fetch c (key_of ob) obj]\<rparr>))"
    by (simp add: Get_invoke [OF assms(1,2) o'] SetClient_fields)
  have 2: "invoke (List cl lobj opts w) (SetClient c' w') =
           (case cList cl opts lcur (stores w' c) of (err, listed) \<Rightarrow>
              Inr (err, (SetClient c' w')\<lparr>object_lists := (object_lists w')(lobj \<mapsto> listed),
                          events := events w' @ [Listing c lobj]\<rparr>))"
    by (simp add: List_invoke [OF assms(1) l'] SetClient_fields)
  have 3: "invoke (Object cl nn w) (SetClient (Some c2) w') =
           (case cGet cl nn (stamped nn) (stores w' c2) of (err, fetched) \<Rightarrow>
              Inr ((next_addr w', err),
                   (SetClient (Some c2) w')\<lparr>objects := (objects w')(next_addr w' \<mapsto> fetched),
                      next_addr := Suc (next_addr w'),
                      events := events w' @ [Alloc (next_addr w'), Fetch c2 nn (next_addr w')]\<rparr>))"
    by (simp add: Object_invoke [OF assms(1)] Object_call_set [OF s] SetClient_fields)
  have 4: "invoke (ObjectList cl opts w) (SetClient (Some c2) w') =
           (case cList cl opts [] (stores w' c2) of (err, listed) \<Rightarrow>
              Inr ((next_addr w', err),
                   (SetClient (Some c2) w')\<lparr>object_lists := (object_lists w')(next_addr w' \<mapsto> listed),
                      next_addr := Suc (next_addr w'),
                      events := events w' @ [Alloc (next_addr w'), Listing c2 (next_addr w')]\<rparr>))"
    by (simp add: ObjectList_invoke [OF assms(1)] ObjectList_call_set [OF s] SetClient_fields)
  have 5: "invoke (Object cl nn w) (SetClient None w') = Inl NilDereference"
    by (simp add: Object_invoke [OF assms(1)] Object_call_unset [OF n])
  have 6: "invoke (ObjectList cl opts w) (SetClient None w') = Inl NilDereference"
    by (simp add: ObjectList_invoke [OF assms(1)] ObjectList_call_unset [OF n])
  show ?thesis using 1 2 3 4 5 6 by simp
qed

theorem handle_binding_witness:
  "client (defaultK caller_world) = Some 0
   \<and> objects caller_world 0 = Some (stamped test_nn)
   \<and> object_lists caller_world 1 = Some []
   \<and> (\<exists>w1. invoke (Get fakeClient 0 caller_world) (SetClient (Some 1) caller_world)
              = Inr (None, w1))
   \<and> (\<exists>w1. invoke (List fakeClient 1 [] caller_world) (SetClient (Some 1) caller_world)
              = Inr (None, w1) \<and> object_lists w1 1 = Some createFakeClient)
   \<and> (\<exists>w1. invoke (Object fakeClient test_nn caller_world) (SetClient (Some 1) caller_world)
              = Inr ((2, Some NotFound), w1))
   \<and> (\<exists>w1. invoke (ObjectList fakeClient [] caller_world) (SetClient (Some 1) caller_world)
              = Inr ((2, None), w1) \<and> object_lists w1 2 = Some [])
   \<and> invoke (Object fakeClient test_nn caller_world) (SetClient None caller_world)
       = Inl NilDereference
   \<and> invoke (ObjectList fakeClient [] caller_world) (SetClient None caller_world)
       = Inl NilDereference"
  using handle_binding [OF caller_world_fields(1) caller_world_fields(2) caller_world_fields(2)
      caller_world_fields(3), of fakeClient "Some 1" "[]" test_nn 1]
  by (simp add: caller_world_fields key_of_stamped fake_get_test fake_get_empty fake_list_all)

section \<open>Errors\<close>

text \<open>
  C6.  The error a probe returns is the error of the store's operation, as the store
  returned it: of the fetch for \<open>Get\<close> and \<open>Object\<close>, of the listing for \<open>List\<close> and
  \<open>ObjectList\<close>, and for \<open>Update\<close> and \<open>UpdateStatus\<close> the error of the fetch when
  there is one and of the write otherwise.  The error type is a parameter of the model,
  so no probe can make an error of its own; the one failure that the package raises
  itself is the panic of \<open>checkClient\<close>.
\<close>

theorem store_errors_returned_verbatim:
  assumes "client (defaultK w) = Some c" and "objects w obj = Some ob"
    and "objects w' obj = Some cur" and "object_lists w' lobj = Some lcur"
    and "objects w' (next_addr w) = Some ucur" and "client (defaultK w') = Some c'"
  shows "(\<exists>w''. invoke (Get cl obj w) w' = Inr (fst (cGet cl (key_of ob) cur (stores w' c)), w''))
    \<and> (\<exists>w''. invoke (List cl lobj lopts w) w' = Inr (fst (cList cl lopts lcur (stores w' c)), w''))
    \<and> (\<exists>w''. invoke (Update cl nn f uopts w) w' =
           Inr ((case cGet cl nn ucur (stores w' c) of
                   (Some e, fetched) \<Rightarrow> Some e
                 | (None, fetched) \<Rightarrow> fst (cUpdate cl (f fetched) uopts (stores w' c))), w''))
    \<and> (\<exists>w''. invoke (UpdateStatus cl nn f uopts w) w' =
           Inr ((case cGet cl nn ucur (stores w' c) of
                   (Some e, fetched) \<Rightarrow> Some e
                 | (None, fetched) \<Rightarrow> fst (cStatusUpdate cl (f fetched) uopts (stores w' c))), w''))
    \<and> (\<exists>a w''. invoke (Object cl nn w) w' =
           Inr ((a, fst (cGet cl nn (stamped nn) (stores w' c'))), w''))
    \<and> (\<exists>a w''. invoke (ObjectList cl lopts w) w' =
           Inr ((a, fst (cList cl lopts [] (stores w' c'))), w''))"
proof -
  have 1: "\<exists>w''. invoke (Get cl obj w) w' = Inr (fst (cGet cl (key_of ob) cur (stores w' c)), w'')"
    by (simp add: Get_invoke [OF assms(1,2,3)] split: prod.splits)
  have 2: "\<exists>w''. invoke (List cl lobj lopts w) w'
             = Inr (fst (cList cl lopts lcur (stores w' c)), w'')"
    by (simp add: List_invoke [OF assms(1,4)] split: prod.splits)
  have 3: "\<exists>w''. invoke (Update cl nn f uopts w) w' =
           Inr ((case cGet cl nn ucur (stores w' c) of
                   (Some e, fetched) \<Rightarrow> Some e
                 | (None, fetched) \<Rightarrow> fst (cUpdate cl (f fetched) uopts (stores w' c))), w'')"
    by (simp add: Update_invoke [OF assms(1,5)] split: prod.splits option.splits)
  have 4: "\<exists>w''. invoke (UpdateStatus cl nn f uopts w) w' =
           Inr ((case cGet cl nn ucur (stores w' c) of
                   (Some e, fetched) \<Rightarrow> Some e
                 | (None, fetched) \<Rightarrow> fst (cStatusUpdate cl (f fetched) uopts (stores w' c))), w'')"
    by (simp add: UpdateStatus_invoke [OF assms(1,5)] split: prod.splits option.splits)
  have 5: "\<exists>a w''. invoke (Object cl nn w) w' =
           Inr ((a, fst (cGet cl nn (stamped nn) (stores w' c'))), w'')"
    by (simp add: Object_invoke [OF assms(1)] Object_call_set [OF assms(6)] split: prod.splits)
  have 6: "\<exists>a w''. invoke (ObjectList cl lopts w) w' =
           Inr ((a, fst (cList cl lopts [] (stores w' c'))), w'')"
    by (simp add: ObjectList_invoke [OF assms(1)] ObjectList_call_set [OF assms(6)]
        split: prod.splits)
  show ?thesis using 1 2 3 4 5 6 by simp
qed

theorem store_errors_returned_verbatim_witness:
  "client (defaultK empty_store_world) = Some 1
   \<and> objects empty_store_world 0 = Some (stamped test_nn)
   \<and> objects empty_store_built 0 = Some (stamped test_nn)
   \<and> object_lists empty_store_built 1 = Some []
   \<and> objects empty_store_built (next_addr empty_store_world) = Some (stamped test_nn)
   \<and> client (defaultK empty_store_built) = Some 1
   \<and> (\<exists>w''. invoke (Get fakeClient 0 empty_store_world) empty_store_built
               = Inr (Some NotFound, w''))
   \<and> (\<exists>w''. invoke (List fakeClient 1 [] empty_store_world) empty_store_built
               = Inr (None, w''))
   \<and> (\<exists>w''. invoke (Update fakeClient test_nn scale_to_3 [] empty_store_world) empty_store_built
               = Inr (Some NotFound, w''))
   \<and> (\<exists>w''. invoke (UpdateStatus fakeClient test_nn scale_to_3 [] empty_store_world)
                 empty_store_built = Inr (Some NotFound, w''))
   \<and> (\<exists>a w''. invoke (Object fakeClient test_nn empty_store_world) empty_store_built
               = Inr ((a, Some NotFound), w''))
   \<and> (\<exists>a w''. invoke (ObjectList fakeClient [] empty_store_world) empty_store_built
               = Inr ((a, None), w''))"
proof -
  have u: "objects empty_store_built (next_addr empty_store_world) = Some (stamped test_nn)"
    by (simp add: empty_store_world_fields empty_store_built_fields)
  show ?thesis
    using store_errors_returned_verbatim [OF empty_store_world_fields(1)
        empty_store_world_fields(2) empty_store_built_fields(2) empty_store_built_fields(4)
        u empty_store_built_fields(1), of fakeClient "[]" test_nn scale_to_3 "[]"]
    by (simp add: empty_store_world_fields empty_store_built_fields key_of_stamped
        fake_get_empty fake_list_all)
qed

section \<open>Every call reads the store first\<close>

text \<open>
  C3.  Every call of every probe (of \<open>Get\<close>, \<open>List\<close>, \<open>Update\<close>, \<open>UpdateStatus\<close>,
  \<open>Object\<close> and \<open>ObjectList\<close>) returns, and what it does is fixed by the state that the
  store has when the call is made: the call asks the store, in its state of that moment,
  for the resource or the listing, and puts the answer into the instance; the probes of
  \<open>Update\<close> and \<open>UpdateStatus\<close> hand the mutator the state just fetched, and write
  what the mutator made of it.  What the instance held from an earlier call reaches the
  result only as the argument that the store's fetch fills.  In the effects of the call,
  the first one after any allocation is a read of the store, and each call of a mutator on
  an instance comes after a fetch into that instance in the same call.
\<close>

theorem every_call_fetches_before_mutating:
  assumes "client (defaultK w) = Some c" and "objects w obj = Some ob"
    and "objects w' obj = Some cur" and "object_lists w' lobj = Some lcur"
    and "objects w' (next_addr w) = Some ucur" and "client (defaultK w') = Some c'"
  shows "invoke (Get cl obj w) w' =
        (case cGet cl (key_of ob) cur (stores w' c) of (err, fetched) \<Rightarrow>
           Inr (err, w'\<lparr>objects := (objects w')(obj \<mapsto> fetched),
                        events := events w' @ [Fetch c (key_of ob) obj]\<rparr>))
    \<and> invoke (List cl lobj lopts w) w' =
        (case cList cl lopts lcur (stores w' c) of (err, listed) \<Rightarrow>
           Inr (err, w'\<lparr>object_lists := (object_lists w')(lobj \<mapsto> listed),
                        events := events w' @ [Listing c lobj]\<rparr>))
    \<and> invoke (Update cl nn f uopts w) w' =
        (case cGet cl nn ucur (stores w' c) of
           (Some e, fetched) \<Rightarrow>
             Inr (Some e, w'\<lparr>objects := (objects w')(next_addr w \<mapsto> fetched),
                             events := events w' @ [Fetch c nn (next_addr w)]\<rparr>)
         | (None, fetched) \<Rightarrow>
             (case cUpdate cl (f fetched) uopts (stores w' c) of (err, written, s') \<Rightarrow>
                Inr (err, w'\<lparr>objects := (objects w')(next_addr w \<mapsto> written),
                             stores := (stores w')(c := s'),
                             events := events w' @
                               [Fetch c nn (next_addr w), Mutate (next_addr w),
                                Write c (next_addr w)]\<rparr>)))
    \<and> invoke (UpdateStatus cl nn f uopts w) w' =
        (case cGet cl nn ucur (stores w' c) of
           (Some e, fetched) \<Rightarrow>
             Inr (Some e, w'\<lparr>objects := (objects w')(next_addr w \<mapsto> fetched),
                             events := events w' @ [Fetch c nn (next_addr w)]\<rparr>)
         | (None, fetched) \<Rightarrow>
             (case cStatusUpdate cl (f fetched) uopts (stores w' c) of (err, written, s') \<Rightarrow>
                Inr (err, w'\<lparr>objects := (objects w')(next_addr w \<mapsto> written),
                             stores := (stores w')(c := s'),
                             events := events w' @
                               [Fetch c nn (next_addr w), Mutate (next_addr w),
                                WriteStatus c (next_addr w)]\<rparr>)))
    \<and> invoke (Object cl nn w) w' =
        (case cGet cl nn (stamped nn) (stores w' c') of (err, fetched) \<Rightarrow>
           Inr ((next_addr w', err),
                w'\<lparr>objects := (objects w')(next_addr w' \<mapsto> fetched),
                   next_addr := Suc (next_addr w'),
                   events := events w' @ [Alloc (next_addr w'), Fetch c' nn (next_addr w')]\<rparr>))
    \<and> invoke (ObjectList cl lopts w) w' =
        (case cList cl lopts [] (stores w' c') of (err, listed) \<Rightarrow>
           Inr ((next_addr w', err),
                w'\<lparr>object_lists := (object_lists w')(next_addr w' \<mapsto> listed),
                   next_addr := Suc (next_addr w'),
                   events := events w' @ [Alloc (next_addr w'), Listing c' (next_addr w')]\<rparr>))
    \<and> (\<exists>evs. effects_of w' (invoke (Get cl obj w) w') = Inr evs
            \<and> reads_first evs \<and> mutations_follow_fetch [] evs)
    \<and> (\<exists>evs. effects_of w' (invoke (List cl lobj lopts w) w') = Inr evs
            \<and> reads_first evs \<and> mutations_follow_fetch [] evs)
    \<and> (\<exists>evs. effects_of w' (invoke (Update cl nn f uopts w) w') = Inr evs
            \<and> reads_first evs \<and> mutations_follow_fetch [] evs)
    \<and> (\<exists>evs. effects_of w' (invoke (UpdateStatus cl nn f uopts w) w') = Inr evs
            \<and> reads_first evs \<and> mutations_follow_fetch [] evs)
    \<and> (\<exists>evs. effects_of w' (invoke (Object cl nn w) w') = Inr evs
            \<and> reads_first evs \<and> mutations_follow_fetch [] evs)
    \<and> (\<exists>evs. effects_of w' (invoke (ObjectList cl lopts w) w') = Inr evs
            \<and> reads_first evs \<and> mutations_follow_fetch [] evs)"
proof -
  note g = Get_invoke [OF assms(1,2,3), of cl]
  note l = List_invoke [OF assms(1,4), of cl lopts]
  note u = Update_invoke [OF assms(1,5), of cl nn f uopts]
  note s = UpdateStatus_invoke [OF assms(1,5), of cl nn f uopts]
  have ob: "invoke (Object cl nn w) w' =
        (case cGet cl nn (stamped nn) (stores w' c') of (err, fetched) \<Rightarrow>
           Inr ((next_addr w', err),
                w'\<lparr>objects := (objects w')(next_addr w' \<mapsto> fetched),
                   next_addr := Suc (next_addr w'),
                   events := events w' @ [Alloc (next_addr w'), Fetch c' nn (next_addr w')]\<rparr>))"
    by (simp add: Object_invoke [OF assms(1)] Object_call_set [OF assms(6)])
  have ol: "invoke (ObjectList cl lopts w) w' =
        (case cList cl lopts [] (stores w' c') of (err, listed) \<Rightarrow>
           Inr ((next_addr w', err),
                w'\<lparr>object_lists := (object_lists w')(next_addr w' \<mapsto> listed),
                   next_addr := Suc (next_addr w'),
                   events := events w' @ [Alloc (next_addr w'), Listing c' (next_addr w')]\<rparr>))"
    by (simp add: ObjectList_invoke [OF assms(1)] ObjectList_call_set [OF assms(6)])
  have 1: "\<exists>evs. effects_of w' (invoke (Get cl obj w) w') = Inr evs
            \<and> reads_first evs \<and> mutations_follow_fetch [] evs"
    by (simp add: g effects_of_def split: prod.splits)
  have 2: "\<exists>evs. effects_of w' (invoke (List cl lobj lopts w) w') = Inr evs
            \<and> reads_first evs \<and> mutations_follow_fetch [] evs"
    by (simp add: l effects_of_def split: prod.splits)
  have 3: "\<exists>evs. effects_of w' (invoke (Update cl nn f uopts w) w') = Inr evs
            \<and> reads_first evs \<and> mutations_follow_fetch [] evs"
    by (simp add: u effects_of_def split: prod.splits option.splits)
  have 4: "\<exists>evs. effects_of w' (invoke (UpdateStatus cl nn f uopts w) w') = Inr evs
            \<and> reads_first evs \<and> mutations_follow_fetch [] evs"
    by (simp add: s effects_of_def split: prod.splits option.splits)
  have 5: "\<exists>evs. effects_of w' (invoke (Object cl nn w) w') = Inr evs
            \<and> reads_first evs \<and> mutations_follow_fetch [] evs"
    by (simp add: ob effects_of_def split: prod.splits)
  have 6: "\<exists>evs. effects_of w' (invoke (ObjectList cl lopts w) w') = Inr evs
            \<and> reads_first evs \<and> mutations_follow_fetch [] evs"
    by (simp add: ol effects_of_def split: prod.splits)
  show ?thesis
    apply (intro conjI)
    apply (rule g)
    apply (rule l)
    apply (rule u)
    apply (rule s)
    apply (rule ob)
    apply (rule ol)
    apply (rule 1)
    apply (rule 2)
    apply (rule 3)
    apply (rule 4)
    apply (rule 5)
    apply (rule 6)
    done
qed

theorem every_call_fetches_before_mutating_witness:
  "client (defaultK caller_world) = Some 0
   \<and> objects caller_world 0 = Some (stamped test_nn)
   \<and> objects caller_built 0 = Some (stamped test_nn)
   \<and> object_lists caller_built 1 = Some []
   \<and> objects caller_built (next_addr caller_world) = Some (stamped test_nn)
   \<and> client (defaultK caller_built) = Some 0
   \<and> invoke (Get fakeClient 0 caller_world) caller_built =
       Inr (None, caller_built\<lparr>objects := (objects caller_built)
              (0 \<mapsto> \<lparr>meta_name = ''test'', meta_namespace = ''default'',
                      body = Deployment (Some 5) 0\<rparr>),
            events := [Alloc 2, Fetch 0 test_nn 0]\<rparr>)
   \<and> invoke (Update fakeClient test_nn scale_to_3 [] caller_world) caller_built =
       Inr (None, caller_built\<lparr>objects := (objects caller_built)
              (2 \<mapsto> \<lparr>meta_name = ''test'', meta_namespace = ''default'',
                      body = Deployment (Some 3) 0\<rparr>),
            stores := (stores caller_built)
              (0 := [\<lparr>meta_name = ''test'', meta_namespace = ''default'',
                      body = Deployment (Some 3) 0\<rparr>]),
            events := [Alloc 2, Fetch 0 test_nn 2, Mutate 2, Write 0 2]\<rparr>)
   \<and> (\<exists>evs. effects_of caller_built (invoke (Get fakeClient 0 caller_world) caller_built)
               = Inr evs \<and> reads_first evs \<and> mutations_follow_fetch [] evs)
   \<and> (\<exists>evs. effects_of caller_built (invoke (List fakeClient 1 [] caller_world) caller_built)
               = Inr evs \<and> reads_first evs \<and> mutations_follow_fetch [] evs)
   \<and> (\<exists>evs. effects_of caller_built
                 (invoke (Update fakeClient test_nn scale_to_3 [] caller_world) caller_built)
               = Inr evs \<and> reads_first evs \<and> mutations_follow_fetch [] evs)
   \<and> (\<exists>evs. effects_of caller_built
                 (invoke (UpdateStatus fakeClient test_nn scale_to_3 [] caller_world) caller_built)
               = Inr evs \<and> reads_first evs \<and> mutations_follow_fetch [] evs)
   \<and> (\<exists>evs. effects_of caller_built (invoke (Object fakeClient test_nn caller_world) caller_built)
               = Inr evs \<and> reads_first evs \<and> mutations_follow_fetch [] evs)
   \<and> (\<exists>evs. effects_of caller_built (invoke (ObjectList fakeClient [] caller_world) caller_built)
               = Inr evs \<and> reads_first evs \<and> mutations_follow_fetch [] evs)"
proof -
  have u: "objects caller_built (next_addr caller_world) = Some (stamped test_nn)"
    by (simp add: caller_world_fields caller_built_fields)
  note t = every_call_fetches_before_mutating [OF caller_world_fields(1) caller_world_fields(2)
        caller_built_fields(2) caller_built_fields(4) u caller_built_fields(1),
        of fakeClient "[]" test_nn scale_to_3 "[]"]
  have g: "invoke (Get fakeClient 0 caller_world) caller_built =
       Inr (None, caller_built\<lparr>objects := (objects caller_built)
              (0 \<mapsto> \<lparr>meta_name = ''test'', meta_namespace = ''default'',
                      body = Deployment (Some 5) 0\<rparr>),
            events := [Alloc 2, Fetch 0 test_nn 0]\<rparr>)"
    using t by (simp add: caller_built_fields key_of_stamped fake_get_test)
  have p: "invoke (Update fakeClient test_nn scale_to_3 [] caller_world) caller_built =
       Inr (None, caller_built\<lparr>objects := (objects caller_built)
              (2 \<mapsto> \<lparr>meta_name = ''test'', meta_namespace = ''default'',
                      body = Deployment (Some 3) 0\<rparr>),
            stores := (stores caller_built)
              (0 := [\<lparr>meta_name = ''test'', meta_namespace = ''default'',
                      body = Deployment (Some 3) 0\<rparr>]),
            events := [Alloc 2, Fetch 0 test_nn 2, Mutate 2, Write 0 2]\<rparr>)"
    by (rule first_call)
  show ?thesis
    using t g p u caller_world_fields(1) caller_world_fields(2) caller_built_fields(2)
      caller_built_fields(4) caller_built_fields(1)
    by blast
qed

section \<open>The probes of \<open>Update\<close> and \<open>UpdateStatus\<close>\<close>

text \<open>
  C9.  \<open>Update\<close> and \<open>UpdateStatus\<close> allocate one instance while they build the probe
  and set the name and namespace of the identity on it.  Every call of the probe works on
  that instance: it allocates nothing (the next address and the allocated addresses stay
  as they were), its fetch, its mutator call and its write are all on the instance of
  the construction, and what the call leaves in the instance stays there for the next
  call to start from.
\<close>

theorem update_probe_shares_one_instance:
  assumes "client (defaultK w) = Some c" and "objects w' (next_addr w) = Some cur"
  shows "(\<exists>p. Update cl nn f opts w =
            Inr (p, w\<lparr>objects := (objects w)(next_addr w \<mapsto> stamped nn),
                      next_addr := Suc (next_addr w),
                      events := events w @ [Alloc (next_addr w)]\<rparr>))
    \<and> (\<exists>r w''. invoke (Update cl nn f opts w) w' = Inr (r, w'')
          \<and> next_addr w'' = next_addr w' \<and> dom (objects w'') = dom (objects w')
          \<and> events w'' = events w' @ Fetch c nn (next_addr w) #
                (case fst (cGet cl nn cur (stores w' c)) of
                   None \<Rightarrow> [Mutate (next_addr w), Write c (next_addr w)]
                 | Some e \<Rightarrow> [])
          \<and> objects w'' (next_addr w) =
                Some (case cGet cl nn cur (stores w' c) of
                        (Some e, fetched) \<Rightarrow> fetched
                      | (None, fetched) \<Rightarrow> fst (snd (cUpdate cl (f fetched) opts (stores w' c)))))
    \<and> (\<exists>p. UpdateStatus cl nn f opts w =
            Inr (p, w\<lparr>objects := (objects w)(next_addr w \<mapsto> stamped nn),
                      next_addr := Suc (next_addr w),
                      events := events w @ [Alloc (next_addr w)]\<rparr>))
    \<and> (\<exists>r w''. invoke (UpdateStatus cl nn f opts w) w' = Inr (r, w'')
          \<and> next_addr w'' = next_addr w' \<and> dom (objects w'') = dom (objects w')
          \<and> events w'' = events w' @ Fetch c nn (next_addr w) #
                (case fst (cGet cl nn cur (stores w' c)) of
                   None \<Rightarrow> [Mutate (next_addr w), WriteStatus c (next_addr w)]
                 | Some e \<Rightarrow> [])
          \<and> objects w'' (next_addr w) =
                Some (case cGet cl nn cur (stores w' c) of
                        (Some e, fetched) \<Rightarrow> fetched
                      | (None, fetched) \<Rightarrow>
                          fst (snd (cStatusUpdate cl (f fetched) opts (stores w' c)))))"
proof -
  have d: "insert (next_addr w) (dom (objects w')) = dom (objects w')"
    using assms(2) by auto
  have 2: "\<exists>r w''. invoke (Update cl nn f opts w) w' = Inr (r, w'')
          \<and> next_addr w'' = next_addr w' \<and> dom (objects w'') = dom (objects w')
          \<and> events w'' = events w' @ Fetch c nn (next_addr w) #
                (case fst (cGet cl nn cur (stores w' c)) of
                   None \<Rightarrow> [Mutate (next_addr w), Write c (next_addr w)]
                 | Some e \<Rightarrow> [])
          \<and> objects w'' (next_addr w) =
                Some (case cGet cl nn cur (stores w' c) of
                        (Some e, fetched) \<Rightarrow> fetched
                      | (None, fetched) \<Rightarrow> fst (snd (cUpdate cl (f fetched) opts (stores w' c))))"
    by (simp add: Update_invoke [OF assms] d split: prod.splits option.splits)
  have 4: "\<exists>r w''. invoke (UpdateStatus cl nn f opts w) w' = Inr (r, w'')
          \<and> next_addr w'' = next_addr w' \<and> dom (objects w'') = dom (objects w')
          \<and> events w'' = events w' @ Fetch c nn (next_addr w) #
                (case fst (cGet cl nn cur (stores w' c)) of
                   None \<Rightarrow> [Mutate (next_addr w), WriteStatus c (next_addr w)]
                 | Some e \<Rightarrow> [])
          \<and> objects w'' (next_addr w) =
                Some (case cGet cl nn cur (stores w' c) of
                        (Some e, fetched) \<Rightarrow> fetched
                      | (None, fetched) \<Rightarrow>
                          fst (snd (cStatusUpdate cl (f fetched) opts (stores w' c))))"
    by (simp add: UpdateStatus_invoke [OF assms] d split: prod.splits option.splits)
  show ?thesis
    using Update_built [OF assms(1), of cl nn f opts] 2
      UpdateStatus_built [OF assms(1), of cl nn f opts] 4
    by simp
qed

theorem update_probe_shares_one_instance_witness:
  "client (defaultK caller_world) = Some 0
   \<and> objects caller_built (next_addr caller_world) = Some (stamped test_nn)
   \<and> (\<exists>p. Update fakeClient test_nn scale_to_3 [] caller_world = Inr (p, caller_built))
   \<and> (\<exists>r. invoke (Update fakeClient test_nn scale_to_3 [] caller_world) caller_built
              = Inr (r, caller_called))
   \<and> next_addr caller_called = next_addr caller_built
   \<and> events caller_called = [Alloc 2, Fetch 0 test_nn 2, Mutate 2, Write 0 2]
   \<and> objects caller_called 2 = Some \<lparr>meta_name = ''test'', meta_namespace = ''default'',
                                        body = Deployment (Some 3) 0\<rparr>"
proof -
  have u: "objects caller_built (next_addr caller_world) = Some (stamped test_nn)"
    by (simp add: caller_world_fields caller_built_fields)
  note c = caller_called_eq
  have b: "\<exists>p. Update fakeClient test_nn scale_to_3 [] caller_world = Inr (p, caller_built)"
    using Update_built [OF caller_world_fields(1), of fakeClient test_nn scale_to_3 "[]"]
    by (simp add: caller_built_eq caller_world_fields)
  have i: "\<exists>r. invoke (Update fakeClient test_nn scale_to_3 [] caller_world) caller_built
              = Inr (r, caller_called)"
    by (simp add: first_call c)
  have f: "next_addr caller_called = next_addr caller_built
   \<and> events caller_called = [Alloc 2, Fetch 0 test_nn 2, Mutate 2, Write 0 2]
   \<and> objects caller_called 2 = Some \<lparr>meta_name = ''test'', meta_namespace = ''default'',
                                        body = Deployment (Some 3) 0\<rparr>"
    by (simp add: c)
  show ?thesis
    using update_probe_shares_one_instance [OF caller_world_fields(1) u,
        of fakeClient test_nn scale_to_3 "[]"] u b i f caller_world_fields(1)
    by simp
qed

text \<open>
  C1, counterexample.  The probe of \<open>Update\<close> does not fetch into a fresh instance on
  each call.  In the scenario of the comment on \<open>Update\<close>, the first call of the probe
  and the second both fetch into, and call the mutator on, the instance at address \<open>2\<close>,
  which \<open>Update\<close> allocated and stamped while it built the probe; neither call
  allocates.
\<close>

theorem update_probe_reuses_instance_counterexample:
  "effects_of caller_built
     (invoke (Update fakeClient test_nn scale_to_3 [] caller_world) caller_built)
     = Inr [Fetch 0 test_nn 2, Mutate 2, Write 0 2]
   \<and> effects_of caller_called
     (invoke (Update fakeClient test_nn scale_to_3 [] caller_world) caller_called)
     = Inr [Fetch 0 test_nn 2, Mutate 2, Write 0 2]
   \<and> \<not> on_fresh_instance [] [Fetch 0 test_nn 2, Mutate 2, Write 0 2]
   \<and> objects caller_built 2 = Some (stamped test_nn)
   \<and> next_addr caller_called = next_addr caller_built"
proof -
  have 1: "effects_of caller_built
     (invoke (Update fakeClient test_nn scale_to_3 [] caller_world) caller_built)
     = Inr [Fetch 0 test_nn 2, Mutate 2, Write 0 2]"
    by (simp add: first_call effects_of_def caller_built_fields)
  have o: "objects caller_called (next_addr caller_world)
             = Some \<lparr>meta_name = ''test'', meta_namespace = ''default'',
                      body = Deployment (Some 3) 0\<rparr>"
    by (simp add: caller_called_eq caller_world_fields)
  have 2: "effects_of caller_called
     (invoke (Update fakeClient test_nn scale_to_3 [] caller_world) caller_called)
     = Inr [Fetch 0 test_nn 2, Mutate 2, Write 0 2]"
    using Update_invoke [OF caller_world_fields(1) o, of fakeClient test_nn scale_to_3 "[]"]
    by (simp add: caller_called_eq effects_of_def caller_world_fields caller_built_fields
        fakeClient_def test_nn_def same_identity_def key_of_def scale_to_3_def)
  have 3: "next_addr caller_called = next_addr caller_built"
    by (simp add: caller_called_eq)
  show ?thesis using 1 2 3 caller_built_fields(3) by simp
qed

text \<open>
  C1, as amended.  Each call of the probe returned by \<open>Update(nn, f, opts...)\<close>, and
  likewise of \<open>UpdateStatus\<close>, fetches the current state of \<open>nn\<close> from the store of the
  client bound at construction into the one instance that was allocated at construction.
  When the fetch fails, the call returns that error.  Otherwise it calls \<open>f\<close> exactly
  once, on that instance holding what was just fetched, writes the instance back with the
  options given, and returns the outcome of the write.
\<close>

theorem update_probe_fetch_mutate_write:
  assumes "client (defaultK w) = Some c" and "objects w' (next_addr w) = Some cur"
  shows "invoke (Update cl nn f opts w) w' =
      (case cGet cl nn cur (stores w' c) of
         (Some e, fetched) \<Rightarrow>
           Inr (Some e, w'\<lparr>objects := (objects w')(next_addr w \<mapsto> fetched),
                           events := events w' @ [Fetch c nn (next_addr w)]\<rparr>)
       | (None, fetched) \<Rightarrow>
           (case cUpdate cl (f fetched) opts (stores w' c) of (err, written, s') \<Rightarrow>
              Inr (err, w'\<lparr>objects := (objects w')(next_addr w \<mapsto> written),
                           stores := (stores w')(c := s'),
                           events := events w' @
                             [Fetch c nn (next_addr w), Mutate (next_addr w),
                              Write c (next_addr w)]\<rparr>)))
    \<and> invoke (UpdateStatus cl nn f opts w) w' =
      (case cGet cl nn cur (stores w' c) of
         (Some e, fetched) \<Rightarrow>
           Inr (Some e, w'\<lparr>objects := (objects w')(next_addr w \<mapsto> fetched),
                           events := events w' @ [Fetch c nn (next_addr w)]\<rparr>)
       | (None, fetched) \<Rightarrow>
           (case cStatusUpdate cl (f fetched) opts (stores w' c) of (err, written, s') \<Rightarrow>
              Inr (err, w'\<lparr>objects := (objects w')(next_addr w \<mapsto> written),
                           stores := (stores w')(c := s'),
                           events := events w' @
                             [Fetch c nn (next_addr w), Mutate (next_addr w),
                              WriteStatus c (next_addr w)]\<rparr>)))"
  using Update_invoke [OF assms, of cl nn f opts] UpdateStatus_invoke [OF assms, of cl nn f opts]
  by simp

theorem update_probe_fetch_mutate_write_witness:
  "client (defaultK caller_world) = Some 0
   \<and> objects caller_built (next_addr caller_world) = Some (stamped test_nn)
   \<and> invoke (Update fakeClient test_nn scale_to_3 [] caller_world) caller_built =
       Inr (None, caller_built\<lparr>objects := (objects caller_built)
              (2 \<mapsto> \<lparr>meta_name = ''test'', meta_namespace = ''default'',
                      body = Deployment (Some 3) 0\<rparr>),
            stores := (stores caller_built)
              (0 := [\<lparr>meta_name = ''test'', meta_namespace = ''default'',
                      body = Deployment (Some 3) 0\<rparr>]),
            events := [Alloc 2, Fetch 0 test_nn 2, Mutate 2, Write 0 2]\<rparr>)
   \<and> invoke (UpdateStatus fakeClient test_nn scale_to_3 [] caller_world) caller_built =
       Inr (None, caller_built\<lparr>objects := (objects caller_built)
              (2 \<mapsto> \<lparr>meta_name = ''test'', meta_namespace = ''default'',
                      body = Deployment (Some 5) 0\<rparr>),
            stores := (stores caller_built)
              (0 := [\<lparr>meta_name = ''test'', meta_namespace = ''default'',
                      body = Deployment (Some 5) 0\<rparr>]),
            events := [Alloc 2, Fetch 0 test_nn 2, Mutate 2, WriteStatus 0 2]\<rparr>)"
proof -
  have u: "objects caller_built (next_addr caller_world) = Some (stamped test_nn)"
    by (simp add: caller_world_fields caller_built_fields)
  show ?thesis
    using update_probe_fetch_mutate_write [OF caller_world_fields(1) u,
        of fakeClient test_nn scale_to_3 "[]"] u
    by (simp add: caller_world_fields caller_built_fields fake_get_test fake_update_scaled
        fake_status_update_scaled)
qed

end
